theory Spec2Isabelle
  imports Complex_Main
begin

section \<open>Data model (src/types.ts)\<close>

text \<open>
  JavaScript numbers that the program only ever uses as integers (identifiers, indices,
  lengths) are modelled as \<open>int\<close>; a \<open>Date\<close> is its millisecond count. Field names
  carry a prefix because record fields share one name space.

  A field of a JSON payload can be missing (\<open>undefined\<close>), \<open>null\<close> or a value. Where the
  source reads a field only through \<open>??\<close> or \<open>=== true\<close>, which treat \<open>undefined\<close> and
  \<open>null\<close> alike, the field is an \<open>option\<close>. The source tells the two apart for \<open>id\<close>
  (\<open>item.id === undefined\<close> in the constructor of the post) and for \<open>kids\<close>
  (\<open>item.kids !== undefined\<close> in \<open>fetchCommentTree\<close>), so these two fields have all
  three cases.
\<close>

datatype 'a optional = Undefined | Null | Value 'a

datatype FeedType = TOP | NEW | BEST | ASK | SHOW | JOB

datatype ItemType = STORY | COMMENT | JOB_ITEM | POLL | POLLOPT

text \<open>\<open>HackerNewsItem\<close>: the raw payload of one item of the API.\<close>

record HackerNewsItem =
  i_id :: "int optional"
  i_deleted :: "bool option"
  i_type :: "ItemType option"
  i_by :: "string option"
  i_time :: "int option"
  i_text :: "string option"
  i_dead :: "bool option"
  i_parent :: "int option"
  i_kids :: "int list optional"
  i_url :: "string option"
  i_score :: "int option"
  i_title :: "string option"
  i_descendants :: "int option"

text \<open>\<open>Comment\<close>: a resolved node that owns the list of its resolved replies.\<close>

datatype comment =
  Comment (c_id: int) (c_author: string) (c_text: string) (c_time: int) (c_parent: int)
    (replies: "comment list") (c_deleted: bool) (c_dead: bool)

text \<open>\<open>FlatComment extends Comment\<close> (tui/utils.ts) with \<open>depth\<close> and \<open>isCollapsed\<close>.\<close>

record FlatComment =
  fc_id :: int
  fc_author :: string
  fc_text :: string
  fc_time :: int
  fc_parent :: int
  fc_replies :: "comment list"
  fc_deleted :: bool
  fc_dead :: bool
  depth :: nat
  isCollapsed :: bool

section \<open>The flattener (tui/utils.ts, flattenComments)\<close>

text \<open>
  The object literal \<open>{...comment, depth, isCollapsed, replies: []}\<close> pushed for every
  visited comment.
\<close>

definition flatEntry :: "comment \<Rightarrow> nat \<Rightarrow> bool \<Rightarrow> FlatComment" where
  "flatEntry c d collapsed =
     \<lparr>fc_id = c_id c, fc_author = c_author c, fc_text = c_text c, fc_time = c_time c,
      fc_parent = c_parent c, fc_replies = [], fc_deleted = c_deleted c, fc_dead = c_dead c,
      depth = d, isCollapsed = collapsed\<rparr>"

text \<open>
  The \<open>for\<close> loop over \<open>comments\<close> is the recursion on the list; the recursive call on
  \<open>comment.replies\<close> happens only when the comment is not collapsed and has replies.
\<close>

fun flattenComments :: "comment list \<Rightarrow> int set \<Rightarrow> nat \<Rightarrow> FlatComment list" where
  "flattenComments [] collapsedSet d = []"
| "flattenComments (Comment cid au tx tm pa rs dl dd # comments) collapsedSet d =
     (let isCollapsed = cid \<in> collapsedSet in
        flatEntry (Comment cid au tx tm pa rs dl dd) d isCollapsed
        # (if \<not> isCollapsed \<and> length rs > 0
           then flattenComments rs collapsedSet (d + 1) else [])
        @ flattenComments comments collapsedSet d)"

section \<open>The viewport window (tui/components/PostView.tsx, useMemo block)\<close>

text \<open>
  The window depends on the flat list only through its length. \<open>Math.floor(n / 2)\<close> on
  an integer is \<open>div\<close> on \<open>int\<close>, which rounds down.
\<close>

definition visibleWindow :: "'a list \<Rightarrow> int \<Rightarrow> int \<Rightarrow> int \<times> int" where
  "visibleWindow flatComments selectedCommentIndex maxVisibleComments =
     (if maxVisibleComments \<le> 0 then (0, 0)
      else
        let half = maxVisibleComments div 2;
            start = max 0 (selectedCommentIndex - half);
            end = min (int (length flatComments)) (start + maxVisibleComments);
            start' = (if end - start < maxVisibleComments
                      then max 0 (end - maxVisibleComments) else start)
        in (start', end))"

section \<open>The collapse set (tui/App.tsx, handlePostInput, the setState updater)\<close>

text \<open>
  \<open>new Set(prev.collapsedComments)\<close> followed by \<open>delete\<close> when the identifier is a
  member and \<open>add\<close> when it is not.
\<close>

definition toggleCollapsed :: "int set \<Rightarrow> int \<Rightarrow> int set" where
  "toggleCollapsed collapsedComments cid =
     (if cid \<in> collapsedComments then collapsedComments - {cid}
      else insert cid collapsedComments)"

section \<open>The network\<close>

text \<open>
  What \<open>await fetch(url)\<close> followed by \<open>response.ok\<close> and \<open>await response.json()\<close>
  can do: \<open>fetch\<close> throws, the response is not ok, \<open>json()\<close> throws, or a value is
  parsed (for an item and a user the value may be JSON \<open>null\<close>, the \<open>None\<close> of the
  payload type). The network is a parameter of every operation that fetches; every
  request made is appended to a log, so that "no fetch happened" is a statement about
  the log.
\<close>

datatype 'a response = FetchThrows | NotOk | JsonThrows | JsonValue 'a

record UserJson =
  u_id :: "string option"
  u_created :: "int option"
  u_karma :: "int option"
  u_about :: "string option"
  u_submitted :: "int list option"

record network =
  item_of :: "int \<Rightarrow> HackerNewsItem option response"
  stories_of :: "FeedType \<Rightarrow> int list response"
  user_of :: "string \<Rightarrow> UserJson option response"

datatype request = ItemRequest int | StoriesRequest FeedType | UserRequest string

section \<open>The post and its comment tree (src/hackernews-post.ts)\<close>

text \<open>
  \<open>commentsCache\<close> holds \<open>null\<close> or a reference to an array. A reference is an address
  into a store of arrays, so that "the identical collection object" is equality of
  addresses.
\<close>

record HackerNewsPost =
  p_id :: "int option"
  p_title :: string
  p_url :: "string option"
  p_author :: string
  p_score :: int
  p_time :: int
  p_commentCount :: int
  p_text :: "string option"
  p_type :: ItemType
  commentIds :: "int list"
  commentsCache :: "nat option"

datatype error =
  Error string
  | StoryIdsError FeedType  \<comment> \<open>\<open>Failed to fetch story IDs for <feed>: <cause>\<close>\<close>
  | UserNotFound string  \<comment> \<open>\<open>User "<name>" not found\<close>\<close>

text \<open>
  The constructor: it throws when the payload has no identifier. A \<open>null\<close> identifier
  passes the test \<open>item.id === undefined\<close> and is stored as it is (\<open>None\<close>).
\<close>

definition newHackerNewsPost :: "HackerNewsItem \<Rightarrow> error + HackerNewsPost" where
  "newHackerNewsPost item =
     (case i_id item of
        Undefined \<Rightarrow> Inl (Error ''Item must have an id'')
      | ident \<Rightarrow>
          Inr \<lparr>p_id = (case ident of Value n \<Rightarrow> Some n | _ \<Rightarrow> None),
               p_title = (case i_title item of None \<Rightarrow> [] | Some t \<Rightarrow> t),
               p_url = i_url item,
               p_author = (case i_by item of None \<Rightarrow> ''unknown'' | Some a \<Rightarrow> a),
               p_score = (case i_score item of None \<Rightarrow> 0 | Some n \<Rightarrow> n),
               p_time = (case i_time item of None \<Rightarrow> 0 | Some n \<Rightarrow> n) * 1000,
               p_commentCount = (case i_descendants item of None \<Rightarrow> 0 | Some n \<Rightarrow> n),
               p_text = i_text item,
               p_type = (case i_type item of None \<Rightarrow> STORY | Some t \<Rightarrow> t),
               commentIds = (case i_kids item of Value ks \<Rightarrow> ks | _ \<Rightarrow> []),
               commentsCache = None\<rparr>)"

text \<open>The object literal that \<open>fetchCommentTree\<close> returns for a live item.\<close>

definition commentOf :: "HackerNewsItem \<Rightarrow> comment list \<Rightarrow> comment" where
  "commentOf item rs =
     Comment (case i_id item of Value n \<Rightarrow> n | _ \<Rightarrow> 0)
       (case i_by item of None \<Rightarrow> ''unknown'' | Some a \<Rightarrow> a)
       (case i_text item of None \<Rightarrow> [] | Some t \<Rightarrow> t)
       ((case i_time item of None \<Rightarrow> 0 | Some n \<Rightarrow> n) * 1000)
       (case i_parent item of None \<Rightarrow> 0 | Some n \<Rightarrow> n)
       rs
       (case i_deleted item of None \<Rightarrow> False | Some b \<Rightarrow> b)
       (case i_dead item of None \<Rightarrow> False | Some b \<Rightarrow> b)"

text \<open>
  \<open>fetchCommentTree\<close> calls itself for every kid of the fetched item, with no bound of
  its own, so the model carries fuel for the depth of the recursion: the outer \<open>None\<close>
  is "the fuel ran out", and a call that has this value for every amount of fuel never
  returns. Inside, \<open>None\<close> is the \<open>null\<close> the source returns; the \<open>catch\<close> turns a
  throwing \<open>fetch\<close> or \<open>json()\<close> into \<open>null\<close>, and also the \<open>TypeError\<close> of
  \<open>item.kids.length\<close> when \<open>kids\<close> is \<open>null\<close>. \<open>fetchCommentTrees\<close> is the loop
  \<open>for (const id of ids) { const c = await this.fetchCommentTree(id); if (c !== null)
  out.push(c) }\<close>, which the source writes once in \<open>getComments\<close> and once in
  \<open>fetchCommentTree\<close>.
\<close>

fun fetchCommentTree ::
    "nat \<Rightarrow> network \<Rightarrow> int \<Rightarrow> request list \<Rightarrow> (comment option \<times> request list) option"
  and fetchCommentTrees ::
    "nat \<Rightarrow> network \<Rightarrow> int list \<Rightarrow> request list \<Rightarrow> (comment list \<times> request list) option"
where
  "fetchCommentTree 0 net commentId rlog = None"
| "fetchCommentTree (Suc fuel) net commentId rlog =
     (case item_of net commentId of
        FetchThrows \<Rightarrow> Some (None, rlog @ [ItemRequest commentId])
      | NotOk \<Rightarrow> Some (None, rlog @ [ItemRequest commentId])
      | JsonThrows \<Rightarrow> Some (None, rlog @ [ItemRequest commentId])
      | JsonValue None \<Rightarrow> Some (None, rlog @ [ItemRequest commentId])
      | JsonValue (Some item) \<Rightarrow>
          if i_deleted item = Some True \<or> i_dead item = Some True
          then Some (None, rlog @ [ItemRequest commentId])
          else
            (case i_kids item of
               Null \<Rightarrow> Some (None, rlog @ [ItemRequest commentId])
             | Undefined \<Rightarrow> Some (Some (commentOf item []), rlog @ [ItemRequest commentId])
             | Value kids \<Rightarrow>
                 if length kids > 0
                 then
                   (case fetchCommentTrees fuel net kids (rlog @ [ItemRequest commentId]) of
                      None \<Rightarrow> None
                    | Some (rs, rlog') \<Rightarrow> Some (Some (commentOf item rs), rlog'))
                 else Some (Some (commentOf item []), rlog @ [ItemRequest commentId])))"
| "fetchCommentTrees fuel net [] rlog = Some ([], rlog)"
| "fetchCommentTrees fuel net (kidId # ids) rlog =
     (case fetchCommentTree fuel net kidId rlog of
        None \<Rightarrow> None
      | Some (reply, rlog') \<Rightarrow>
          (case fetchCommentTrees fuel net ids rlog' of
             None \<Rightarrow> None
           | Some (rs, rlog'') \<Rightarrow>
               Some ((case reply of None \<Rightarrow> rs | Some c \<Rightarrow> c # rs), rlog'')))"

text \<open>The state outside the post object: the store of arrays and the request log.\<close>

record world =
  heap :: "comment list list"
  requests :: "request list"

definition deref :: "world \<Rightarrow> nat \<Rightarrow> comment list" where
  "deref w a = (if a < length (heap w) then heap w ! a else [])"

text \<open>
  \<open>getComments\<close> returns the cached reference, or builds a new array (a new address
  of the store), stores its reference in the cache and returns it.
\<close>

definition getComments ::
    "nat \<Rightarrow> network \<Rightarrow> HackerNewsPost \<Rightarrow> world \<Rightarrow> (nat \<times> HackerNewsPost \<times> world) option" where
  "getComments fuel net post w =
     (case commentsCache post of
        Some a \<Rightarrow> Some (a, post, w)
      | None \<Rightarrow>
          (case fetchCommentTrees fuel net (commentIds post) (requests w) of
             None \<Rightarrow> None
           | Some (comments, rlog) \<Rightarrow>
               let a = length (heap w) in
                 Some (a, post\<lparr>commentsCache := Some a\<rparr>,
                       \<lparr>heap = heap w @ [comments], requests = rlog\<rparr>)))"

definition clearCommentsCache :: "HackerNewsPost \<Rightarrow> HackerNewsPost" where
  "clearCommentsCache post = post\<lparr>commentsCache := None\<rparr>"

text \<open>The local function \<open>flattenComments\<close> of \<open>getAllCommentsFlat\<close>.\<close>

fun flattenAll :: "comment list \<Rightarrow> comment list" where
  "flattenAll [] = []"
| "flattenAll (Comment cid au tx tm pa rs dl dd # comments) =
     Comment cid au tx tm pa rs dl dd
     # (if length rs > 0 then flattenAll rs else [])
     @ flattenAll comments"

definition getAllCommentsFlat ::
    "nat \<Rightarrow> network \<Rightarrow> HackerNewsPost \<Rightarrow> world
      \<Rightarrow> (comment list \<times> HackerNewsPost \<times> world) option" where
  "getAllCommentsFlat fuel net post w =
     (case getComments fuel net post w of
        None \<Rightarrow> None
      | Some (a, post', w') \<Rightarrow> Some (flattenAll (deref w' a), post', w'))"

definition findComment ::
    "nat \<Rightarrow> network \<Rightarrow> HackerNewsPost \<Rightarrow> world \<Rightarrow> int
      \<Rightarrow> (comment option \<times> HackerNewsPost \<times> world) option" where
  "findComment fuel net post w commentId =
     (case getAllCommentsFlat fuel net post w of
        None \<Rightarrow> None
      | Some (allComments, post', w') \<Rightarrow>
          Some (find (\<lambda>c. c_id c = commentId) allComments, post', w'))"

section \<open>The client (HackerNewsClient)\<close>

text \<open>
  A thrown \<open>Error\<close> is the \<open>Inl\<close> of the result; the request log is returned with it, so
  that a throw before any fetch leaves the log as it was.

  \<open>limit\<close> is a JavaScript \<open>number\<close>: \<open>NaN\<close>, an infinity, or a finite value (a real
  here; every finite double is one, and the source only compares the limit and cuts a
  list with it). Every comparison with \<open>NaN\<close> is false. \<open>xs.slice(0, n)\<close> first turns
  \<open>n\<close> into an integer (\<open>NaN\<close> becomes 0, a finite value is truncated towards zero), a
  negative one counts from the end.
\<close>

datatype number = NaN | NegInfinity | Finite real | Infinity

fun number_le :: "number \<Rightarrow> real \<Rightarrow> bool" where
  "number_le NaN c = False"
| "number_le NegInfinity c = True"
| "number_le (Finite r) c = (r \<le> c)"
| "number_le Infinity c = False"

fun number_gt :: "number \<Rightarrow> real \<Rightarrow> bool" where
  "number_gt NaN c = False"
| "number_gt NegInfinity c = False"
| "number_gt (Finite r) c = (r > c)"
| "number_gt Infinity c = True"

text \<open>\<open>n >= limit\<close> for an integer \<open>n\<close> (a length).\<close>

fun reaches :: "int \<Rightarrow> number \<Rightarrow> bool" where
  "reaches n NaN = False"
| "reaches n NegInfinity = True"
| "reaches n (Finite r) = (real_of_int n \<ge> r)"
| "reaches n Infinity = False"

fun slice0 :: "'a list \<Rightarrow> number \<Rightarrow> 'a list" where
  "slice0 xs NaN = []"
| "slice0 xs NegInfinity = []"
| "slice0 xs (Finite r) =
     (let k = (if r \<ge> 0 then \<lfloor>r\<rfloor> else \<lceil>r\<rceil>) in
        if k < 0 then take (nat (max (int (length xs) + k) 0)) xs else take (nat k) xs)"
| "slice0 xs Infinity = xs"

definition getPost ::
    "network \<Rightarrow> int \<Rightarrow> request list \<Rightarrow> HackerNewsPost option \<times> request list" where
  "getPost net postId rlog =
     (case item_of net postId of
        FetchThrows \<Rightarrow> None
      | NotOk \<Rightarrow> None
      | JsonThrows \<Rightarrow> None
      | JsonValue None \<Rightarrow> None
      | JsonValue (Some item) \<Rightarrow>
          if i_deleted item = Some True \<or> i_dead item = Some True then None
          else (case newHackerNewsPost item of Inl e \<Rightarrow> None | Inr post \<Rightarrow> Some post),
      rlog @ [ItemRequest postId])"

fun getPostsByIds ::
    "network \<Rightarrow> int list \<Rightarrow> request list \<Rightarrow> HackerNewsPost list \<times> request list" where
  "getPostsByIds net [] rlog = ([], rlog)"
| "getPostsByIds net (ident # postIds) rlog =
     (case getPost net ident rlog of
        (post, rlog') \<Rightarrow>
          (case getPostsByIds net postIds rlog' of
             (posts, rlog'') \<Rightarrow> ((case post of None \<Rightarrow> posts | Some p \<Rightarrow> p # posts), rlog'')))"

definition fetchStoryIds ::
    "network \<Rightarrow> FeedType \<Rightarrow> request list \<Rightarrow> (error + int list) \<times> request list" where
  "fetchStoryIds net feedType rlog =
     (case stories_of net feedType of
        JsonValue storyIds \<Rightarrow> Inr storyIds
      | _ \<Rightarrow> Inl (StoryIdsError feedType),
      rlog @ [StoriesRequest feedType])"

text \<open>
  The loop of \<open>getPosts\<close> is the loop of \<open>getPostsByIds\<close>, written out a second time in
  the source.
\<close>

definition getPosts ::
    "network \<Rightarrow> FeedType \<Rightarrow> number \<Rightarrow> request list
      \<Rightarrow> (error + HackerNewsPost list) \<times> request list" where
  "getPosts net feedType limit rlog =
     (if number_le limit 0 then (Inl (Error ''Limit must be greater than 0''), rlog)
      else if number_gt limit 500 then (Inl (Error ''Limit cannot exceed 500''), rlog)
      else
        (case fetchStoryIds net feedType rlog of
           (Inl e, rlog') \<Rightarrow> (Inl e, rlog')
         | (Inr storyIds, rlog') \<Rightarrow>
             (case getPostsByIds net (slice0 storyIds limit) rlog' of
                (posts, rlog'') \<Rightarrow> (Inr posts, rlog''))))"

record User =
  user_id :: string
  created :: int
  karma :: int
  about :: "string option"
  submitted :: "int list"

definition getUser :: "network \<Rightarrow> string \<Rightarrow> request list \<Rightarrow> User option \<times> request list" where
  "getUser net username rlog =
     (case user_of net username of
        JsonValue (Some user) \<Rightarrow>
          Some \<lparr>user_id = (case u_id user of None \<Rightarrow> username | Some n \<Rightarrow> n),
                created = (case u_created user of None \<Rightarrow> 0 | Some n \<Rightarrow> n) * 1000,
                karma = (case u_karma user of None \<Rightarrow> 0 | Some n \<Rightarrow> n),
                about = u_about user,
                submitted = (case u_submitted user of None \<Rightarrow> [] | Some ids \<Rightarrow> ids)\<rparr>
      | _ \<Rightarrow> None,
      rlog @ [UserRequest username])"

text \<open>
  The loop of \<open>getPostsByUser\<close>: it keeps stories, jobs and polls and leaves
  (\<open>break\<close>) once \<open>limit\<close> posts are collected.
\<close>

fun userPostsLoop ::
    "network \<Rightarrow> number \<Rightarrow> int list \<Rightarrow> HackerNewsPost list \<Rightarrow> request list
      \<Rightarrow> HackerNewsPost list \<times> request list" where
  "userPostsLoop net limit [] posts rlog = (posts, rlog)"
| "userPostsLoop net limit (ident # postIds) posts rlog =
     (case getPost net ident rlog of
        (None, rlog') \<Rightarrow> userPostsLoop net limit postIds posts rlog'
      | (Some item, rlog') \<Rightarrow>
          if p_type item = STORY \<or> p_type item = JOB_ITEM \<or> p_type item = POLL
          then (if reaches (int (length (posts @ [item]))) limit then (posts @ [item], rlog')
                else userPostsLoop net limit postIds (posts @ [item]) rlog')
          else userPostsLoop net limit postIds posts rlog')"

definition getPostsByUser ::
    "network \<Rightarrow> string \<Rightarrow> number \<Rightarrow> request list
      \<Rightarrow> (error + HackerNewsPost list) \<times> request list" where
  "getPostsByUser net username limit rlog =
     (if number_le limit 0 then (Inl (Error ''Limit must be greater than 0''), rlog)
      else if number_gt limit 500 then (Inl (Error ''Limit cannot exceed 500''), rlog)
      else
        (case getUser net username rlog of
           (None, rlog') \<Rightarrow> (Inl (UserNotFound username), rlog')
         | (Some user, rlog') \<Rightarrow>
             (case userPostsLoop net limit (slice0 (submitted user) limit) [] rlog' of
                (posts, rlog'') \<Rightarrow> (Inr posts, rlog''))))"

section \<open>The application state machine (src/tui/App.tsx)\<close>

text \<open>
  One transition per event. A key press runs the \<open>useInput\<close> handler, whose closure
  \<open>state\<close> is the state the updaters receive as \<open>prev\<close>. The two asynchronous loads are
  split at their \<open>await\<close>: the part before it runs inside the key press and leaves a
  request among the effects; the part after it is an event of its own, which carries
  what the awaited call produced. Calls to the event logger do not touch the state and
  are left out.
\<close>

datatype View = FeedView | PostView | HelpView

record AppState =
  view :: View
  feedType :: FeedType
  posts :: "HackerNewsPost list"
  selectedPostIndex :: int
  currentPost :: "HackerNewsPost option"
  comments :: "comment list"
  flatComments :: "FlatComment list"
  selectedCommentIndex :: int
  collapsedComments :: "int set"
  loading :: bool
  error :: "string option"
  statusMessage :: "string option"

record Key =
  upArrow :: bool
  downArrow :: bool
  leftArrow :: bool
  rightArrow :: bool
  returnKey :: bool
  escape :: bool
  backspace :: bool

datatype effect =
  Exit
  | LoadFeed FeedType
  | LoadFeedInherited string  \<comment> \<open>\<open>loadFeed\<close> called with an inherited property of \<open>feedMap\<close>\<close>
  | LoadPostDetails HackerNewsPost
  | OpenArticleInBrowser HackerNewsPost
  | OpenInBrowser HackerNewsPost
  | OpenCommentInBrowser HackerNewsPost int

datatype event =
  KeyPress string Key
  | FeedResolved FeedType "HackerNewsPost list"
  | FeedRejected string
  | CommentsResolved "comment list"
  | CommentsRejected string

text \<open>\<open>xs[i]\<close> of JavaScript: \<open>undefined\<close> outside the array.\<close>

definition at_index :: "'a list \<Rightarrow> int \<Rightarrow> 'a option" where
  "at_index xs i = (if 0 \<le> i \<and> i < int (length xs) then Some (xs ! nat i) else None)"

definition initialState :: AppState where
  "initialState =
     \<lparr>view = FeedView, feedType = TOP, posts = [], selectedPostIndex = 0,
      currentPost = None, comments = [], flatComments = [], selectedCommentIndex = 0,
      collapsedComments = {}, loading = False, error = None, statusMessage = None\<rparr>"

text \<open>\<open>loadFeed\<close>: before the \<open>await\<close>, after it returned, after it threw.\<close>

definition loadFeed_begin :: "AppState \<Rightarrow> AppState" where
  "loadFeed_begin prev = prev\<lparr>loading := True, error := None\<rparr>"

definition loadFeed_resolved :: "FeedType \<Rightarrow> HackerNewsPost list \<Rightarrow> AppState \<Rightarrow> AppState" where
  "loadFeed_resolved ft ps prev =
     prev\<lparr>feedType := ft, posts := ps, loading := False, selectedPostIndex := 0\<rparr>"

definition loadFeed_rejected :: "string \<Rightarrow> AppState \<Rightarrow> AppState" where
  "loadFeed_rejected msg prev = prev\<lparr>loading := False, error := Some msg\<rparr>"

text \<open>\<open>loadPostDetails\<close>: before the \<open>await\<close>, after it returned, after it threw.\<close>

definition loadPostDetails_begin :: "HackerNewsPost \<Rightarrow> AppState \<Rightarrow> AppState" where
  "loadPostDetails_begin post prev =
     prev\<lparr>view := PostView, currentPost := Some post, loading := True, comments := [],
          flatComments := [], selectedCommentIndex := 0, collapsedComments := {}\<rparr>"

definition loadPostDetails_resolved :: "comment list \<Rightarrow> AppState \<Rightarrow> AppState" where
  "loadPostDetails_resolved cs prev =
     prev\<lparr>comments := cs, flatComments := flattenComments cs {} 0, loading := False\<rparr>"

definition loadPostDetails_rejected :: "string \<Rightarrow> AppState \<Rightarrow> AppState" where
  "loadPostDetails_rejected msg prev = prev\<lparr>loading := False, error := Some msg\<rparr>"

text \<open>
  \<open>feedMap\<close> is an object literal with the keys \<open>1\<close> to \<open>6\<close>. The test \<open>input in feedMap\<close>
  also holds for the property names an object literal inherits from
  \<open>Object.prototype\<close>; for these \<open>feedMap[input]\<close> is a function or an object, not
  \<open>undefined\<close>, so \<open>loadFeed\<close> is called with it.
\<close>

definition feedMap :: "string \<Rightarrow> FeedType option" where
  "feedMap input =
     (if input = ''1'' then Some TOP else if input = ''2'' then Some NEW
      else if input = ''3'' then Some BEST else if input = ''4'' then Some ASK
      else if input = ''5'' then Some SHOW else if input = ''6'' then Some JOB
      else None)"

definition inheritedNames :: "string list" where
  "inheritedNames =
     [''constructor'', ''hasOwnProperty'', ''isPrototypeOf'', ''propertyIsEnumerable'',
      ''toLocaleString'', ''toString'', ''valueOf'', ''__proto__'', ''__defineGetter__'',
      ''__defineSetter__'', ''__lookupGetter__'', ''__lookupSetter__'']"

definition inFeedMap :: "string \<Rightarrow> bool" where
  "inFeedMap input = (feedMap input \<noteq> None \<or> input \<in> set inheritedNames)"

definition handleHelpInput :: "AppState \<Rightarrow> Key \<Rightarrow> AppState \<times> effect list" where
  "handleHelpInput s key = (if escape key then (s\<lparr>view := FeedView\<rparr>, []) else (s, []))"

definition handleFeedInput :: "AppState \<Rightarrow> string \<Rightarrow> Key \<Rightarrow> AppState \<times> effect list" where
  "handleFeedInput s input key =
     (if input = ''j'' \<or> downArrow key then
        (s\<lparr>selectedPostIndex :=
             min (selectedPostIndex s + 1) (int (length (posts s)) - 1)\<rparr>, [])
      else if input = ''k'' \<or> upArrow key then
        (s\<lparr>selectedPostIndex := max (selectedPostIndex s - 1) 0\<rparr>, [])
      else if input = ''g'' then (s\<lparr>selectedPostIndex := 0\<rparr>, [])
      else if input = ''G'' then
        (s\<lparr>selectedPostIndex := int (length (posts s)) - 1\<rparr>, [])
      else if returnKey key then
        (case at_index (posts s) (selectedPostIndex s) of
           Some selectedPost \<Rightarrow>
             (loadPostDetails_begin selectedPost s, [LoadPostDetails selectedPost])
         | None \<Rightarrow> (s, []))
      else if input = ''o'' then
        (case at_index (posts s) (selectedPostIndex s) of
           Some selectedPost \<Rightarrow> (s, [OpenArticleInBrowser selectedPost])
         | None \<Rightarrow> (s, []))
      else if input = ''c'' \<or> input = '' '' then
        (case at_index (posts s) (selectedPostIndex s) of
           Some selectedPost \<Rightarrow> (s, [OpenInBrowser selectedPost])
         | None \<Rightarrow> (s, []))
      else if input = ''r'' then (loadFeed_begin s, [LoadFeed (feedType s)])
      else (s, []))"

definition handlePostInput :: "AppState \<Rightarrow> string \<Rightarrow> Key \<Rightarrow> AppState \<times> effect list" where
  "handlePostInput s input key =
     (if input = ''j'' \<or> downArrow key then
        (s\<lparr>selectedCommentIndex :=
             min (selectedCommentIndex s + 1) (int (length (flatComments s)) - 1)\<rparr>, [])
      else if input = ''k'' \<or> upArrow key then
        (s\<lparr>selectedCommentIndex := max (selectedCommentIndex s - 1) 0\<rparr>, [])
      else if input = ''g'' then (s\<lparr>selectedCommentIndex := 0\<rparr>, [])
      else if input = ''G'' then
        (s\<lparr>selectedCommentIndex := int (length (flatComments s)) - 1\<rparr>, [])
      else if input = '' '' then
        (case at_index (flatComments s) (selectedCommentIndex s) of
           Some selectedComment \<Rightarrow>
             (let newCollapsed = toggleCollapsed (collapsedComments s) (fc_id selectedComment);
                  newFlatComments = flattenComments (comments s) newCollapsed 0
              in (s\<lparr>collapsedComments := newCollapsed, flatComments := newFlatComments\<rparr>, []))
         | None \<Rightarrow> (s, []))
      else if input = ''o'' \<and> currentPost s \<noteq> None then
        (s, [OpenArticleInBrowser (the (currentPost s))])
      else if input = ''c'' then
        (case (at_index (flatComments s) (selectedCommentIndex s), currentPost s) of
           (Some selectedComment, Some post) \<Rightarrow>
             (s, [OpenCommentInBrowser post (fc_id selectedComment)])
         | _ \<Rightarrow> (s, []))
      else if escape key \<or> backspace key then
        (s\<lparr>view := FeedView, currentPost := None, comments := [], flatComments := []\<rparr>, [])
      else (s, []))"

text \<open>The \<open>useInput\<close> handler.\<close>

definition handleInput :: "AppState \<Rightarrow> string \<Rightarrow> Key \<Rightarrow> AppState \<times> effect list" where
  "handleInput s input key =
     (if input = ''q'' \<and> view s \<noteq> HelpView then (s, [Exit])
      else if input = ''h'' \<or> input = ''?'' then
        (s\<lparr>view := (if view s = HelpView then FeedView else HelpView)\<rparr>, [])
      else if view s = FeedView \<and> inFeedMap input then
        (case feedMap input of
           Some ft \<Rightarrow> (loadFeed_begin s, [LoadFeed ft])
         | None \<Rightarrow> (loadFeed_begin s, [LoadFeedInherited input]))
      else
        (case view s of
           HelpView \<Rightarrow> handleHelpInput s key
         | FeedView \<Rightarrow> handleFeedInput s input key
         | PostView \<Rightarrow> handlePostInput s input key))"

fun step :: "AppState \<Rightarrow> event \<Rightarrow> AppState \<times> effect list" where
  "step s (KeyPress input key) = handleInput s input key"
| "step s (FeedResolved ft ps) = (loadFeed_resolved ft ps s, [])"
| "step s (FeedRejected msg) = (loadFeed_rejected msg s, [])"
| "step s (CommentsResolved cs) = (loadPostDetails_resolved cs s, [])"
| "step s (CommentsRejected msg) = (loadPostDetails_rejected msg s, [])"

definition noKey :: Key where
  "noKey = \<lparr>upArrow = False, downArrow = False, leftArrow = False, rightArrow = False,
            returnKey = False, escape = False, backspace = False\<rparr>"

section \<open>Vocabulary of the properties\<close>

text \<open>
  Names for what the theorems speak about; none of these is a function of the source.
  \<open>kidsOf\<close> is \<open>item.kids\<close> with \<open>undefined\<close> read as the empty list. \<open>liveItem\<close> is the
  item a fetch of an identifier resolves to: \<open>None\<close> when the fetch or the parse throws,
  the response is not ok, the payload is \<open>null\<close>, the item is deleted or dead, or its
  \<open>kids\<close> field is \<open>null\<close> (the cases in which \<open>fetchCommentTree\<close> returns \<open>null\<close>
  without fetching any kid).
\<close>

definition kidsOf :: "HackerNewsItem \<Rightarrow> int list" where
  "kidsOf item = (case i_kids item of Value kids \<Rightarrow> kids | _ \<Rightarrow> [])"

definition liveItem :: "network \<Rightarrow> int \<Rightarrow> HackerNewsItem option" where
  "liveItem net i =
     (case item_of net i of
        JsonValue (Some item) \<Rightarrow>
          if i_deleted item = Some True \<or> i_dead item = Some True \<or> i_kids item = Null
          then None else Some item
      | _ \<Rightarrow> None)"


text \<open>
  The nodes of a forest in pre-order, each with the identifiers of its proper
  ancestors from the root down. A node is a descendant of a node with identifier \<open>x\<close>
  when \<open>x\<close> is among its ancestors.
\<close>

fun withAncestors :: "int list \<Rightarrow> comment list \<Rightarrow> (int list \<times> comment) list" where
  "withAncestors anc [] = []"
| "withAncestors anc (Comment cid au tx tm pa rs dl dd # cs) =
     (anc, Comment cid au tx tm pa rs dl dd)
     # withAncestors (anc @ [cid]) rs
     @ withAncestors anc cs"

section \<open>Example values\<close>

text \<open>Concrete inputs on which the theorems below are evaluated.\<close>

definition exampleComment :: "int \<Rightarrow> comment list \<Rightarrow> comment" where
  "exampleComment n rs = Comment n ''pg'' ''hello'' 0 0 rs False False"

definition examplePost :: HackerNewsPost where
  "examplePost =
     \<lparr>p_id = Some 1, p_title = ''A story'', p_url = None, p_author = ''pg'', p_score = 1,
      p_time = 0, p_commentCount = 2, p_text = None, p_type = STORY,
      commentIds = [10, 11], commentsCache = None\<rparr>"

definition examplePostState :: AppState where
  "examplePostState =
     loadPostDetails_resolved [exampleComment 10 [exampleComment 20 []]]
       (loadPostDetails_begin examplePost (initialState\<lparr>posts := [examplePost]\<rparr>))"

definition escapeKey :: Key where
  "escapeKey = noKey\<lparr>escape := True\<rparr>"

definition enterKey :: Key where
  "enterKey = noKey\<lparr>returnKey := True\<rparr>"

definition abandonedLoad :: AppState where
  "abandonedLoad =
     fst (step (fst (step (initialState\<lparr>posts := [examplePost]\<rparr>) (KeyPress [] enterKey)))
            (KeyPress [] escapeKey))"

definition exampleItem :: "int \<Rightarrow> int list \<Rightarrow> HackerNewsItem" where
  "exampleItem n kids =
     \<lparr>i_id = Value n, i_deleted = None, i_type = Some COMMENT, i_by = Some ''pg'',
      i_time = Some 0, i_text = Some ''hello'', i_dead = None, i_parent = None,
      i_kids = (if kids = [] then Undefined else Value kids), i_url = None, i_score = None,
      i_title = None, i_descendants = None\<rparr>"

definition deadNetwork :: network where
  "deadNetwork =
     \<lparr>item_of = (\<lambda>i. FetchThrows), stories_of = (\<lambda>f. FetchThrows),
      user_of = (\<lambda>u. FetchThrows)\<rparr>"

definition exampleNetwork :: network where
  "exampleNetwork =
     \<lparr>item_of =
        (\<lambda>i. if i = 10 then JsonValue (Some (exampleItem 10 [20]))
             else if i = 11 then JsonValue (Some ((exampleItem 11 [])\<lparr>i_deleted := Some True\<rparr>))
             else if i = 20 then JsonValue (Some (exampleItem 20 []))
             else NotOk),
      stories_of = (\<lambda>f. JsonValue [10, 11, 20]),
      user_of =
        (\<lambda>u. if u = ''pg''
             then JsonValue (Some \<lparr>u_id = Some ''pg'', u_created = None, u_karma = None,
                                   u_about = None, u_submitted = Some [10]\<rparr>)
             else JsonValue None)\<rparr>"


definition cyclicNetwork :: network where
  "cyclicNetwork =
     deadNetwork\<lparr>item_of :=
       (\<lambda>i. if i = 1 then JsonValue (Some (exampleItem 1 [1]))
            else if i = 2 then JsonValue (Some (exampleItem 2 [3]))
            else if i = 3 then JsonValue (Some (exampleItem 3 [2]))
            else NotOk)\<rparr>"

definition emptyWorld :: world where
  "emptyWorld = \<lparr>heap = [], requests = []\<rparr>"

definition builtWorld :: world where
  "builtWorld =
     \<lparr>heap = [[exampleComment 10 [exampleComment 20 []]]],
      requests = [ItemRequest 10, ItemRequest 20, ItemRequest 11]\<rparr>"

definition exampleRank :: "int \<Rightarrow> nat" where
  "exampleRank i = (if i = 10 then 1 else 0)"


definition exampleForest :: "comment list" where
  "exampleForest =
     [exampleComment 1 [exampleComment 2 [exampleComment 3 []]], exampleComment 4 []]"

section \<open>Properties of the viewport window\<close>

text \<open>
  C3. For a selected index inside the sequence and a positive capacity the window
  contains the selection, stays inside the sequence, has \<open>min cap len\<close> elements, and
  starts at \<open>i - cap div 2\<close> clamped to \<open>[0, len - cap]\<close>; the window over a hundred
  elements with selection 50 and capacity 10 is \<open>(45, 55)\<close>; a capacity that is not
  positive gives the empty window \<open>(0, 0)\<close>.
\<close>

theorem visibleWindow_bounds:
  "(0 \<le> i \<and> i < int (length xs) \<and> 0 < cap \<longrightarrow>
      (case visibleWindow xs i cap of (start, end) \<Rightarrow>
         0 \<le> start \<and> start \<le> i \<and> i < end \<and> end \<le> int (length xs)
         \<and> end - start = min cap (int (length xs))
         \<and> start = max 0 (min (int (length xs) - cap) (i - cap div 2))))
   \<and> (cap \<le> 0 \<longrightarrow> visibleWindow xs i cap = (0, 0))
   \<and> visibleWindow [0 ..< 100] 50 10 = (45, 55)"
proof (intro conjI impI)
  assume h: "0 \<le> i \<and> i < int (length xs) \<and> 0 < cap"
  then have "cap div 2 < cap" "0 \<le> cap div 2" by auto
  with h show "case visibleWindow xs i cap of (start, end) \<Rightarrow>
         0 \<le> start \<and> start \<le> i \<and> i < end \<and> end \<le> int (length xs)
         \<and> end - start = min cap (int (length xs))
         \<and> start = max 0 (min (int (length xs) - cap) (i - cap div 2))"
    by (auto simp: visibleWindow_def Let_def min_def max_def)
next
  assume "cap \<le> 0"
  then show "visibleWindow xs i cap = (0, 0)" by (simp add: visibleWindow_def)
next
  show "visibleWindow [0 ..< 100] 50 10 = (45, 55)"
    by (simp add: visibleWindow_def Let_def)
qed

theorem visibleWindow_bounds_witness:
  "0 \<le> (7::int) \<and> 7 < int (length [0 ..< 8]) \<and> 0 < (3::int)
   \<and> visibleWindow [0 ..< 8] 7 3 = (5, 8)
   \<and> visibleWindow [0 ..< 8] 7 0 = (0, 0)"
  using visibleWindow_bounds [of 7 "[0 ..< 8]" 3] visibleWindow_bounds [of 7 "[0 ..< 8]" 0]
  by (simp add: visibleWindow_def Let_def)

section \<open>Properties of the collapse set\<close>

text \<open>
  C9. One toggle flips the membership of its identifier and of no other, and two
  toggles of one identifier give the collapse set back; the space key of the post view
  replaces the collapse set by the toggle at the selected comment's identifier.
\<close>

theorem toggleCollapsed_flips_membership:
  "(i \<in> toggleCollapsed C i \<longleftrightarrow> i \<notin> C)
   \<and> (\<forall>j. j \<noteq> i \<longrightarrow> (j \<in> toggleCollapsed C i \<longleftrightarrow> j \<in> C))
   \<and> toggleCollapsed (toggleCollapsed C i) i = C
   \<and> (view s = PostView \<and> at_index (flatComments s) (selectedCommentIndex s) = Some c
        \<longrightarrow> collapsedComments (fst (handleInput s '' '' noKey))
            = toggleCollapsed (collapsedComments s) (fc_id c))"
  by (auto simp: toggleCollapsed_def handleInput_def handlePostInput_def noKey_def Let_def)

theorem toggleCollapsed_flips_membership_witness:
  "(2::int) \<notin> toggleCollapsed {1, 2} 2 \<and> 1 \<in> toggleCollapsed {1, 2} 2
   \<and> toggleCollapsed (toggleCollapsed {1, 2} 2) 2 = {1, 2}
   \<and> view examplePostState = PostView
   \<and> at_index (flatComments examplePostState) (selectedCommentIndex examplePostState)
       = Some (flatEntry (exampleComment 10 [exampleComment 20 []]) 0 False)
   \<and> collapsedComments (fst (handleInput examplePostState '' '' noKey)) = {10}"
  using toggleCollapsed_flips_membership
    [of 2 "{1, 2}" examplePostState "flatEntry (exampleComment 10 [exampleComment 20 []]) 0 False"]
  by (simp add: toggleCollapsed_def examplePostState_def loadPostDetails_resolved_def
      loadPostDetails_begin_def initialState_def exampleComment_def at_index_def flatEntry_def)

section \<open>Properties of the client\<close>

text \<open>
  C10, as the claim states it, fails: \<open>NaN\<close> is a limit outside \<open>1..500\<close>, it is neither
  \<open><= 0\<close> nor \<open>> 500\<close>, so both operations pass their two checks and fetch (the feed,
  the user); the cut \<open>slice(0, NaN)\<close> then leaves no identifier and the result is empty.
\<close>

theorem nan_limit_fetches_counterexample:
  "getPosts exampleNetwork TOP NaN [] = (Inr [], [StoriesRequest TOP])
   \<and> getPostsByUser exampleNetwork ''pg'' NaN [] = (Inr [], [UserRequest ''pg''])"
  by (simp add: getPosts_def getPostsByUser_def fetchStoryIds_def getUser_def
      exampleNetwork_def)

text \<open>
  C10, amended. \<open>getPosts\<close> and \<open>getPostsByUser\<close> throw \<open>Limit must be greater than 0\<close>
  for every limit \<open><= 0\<close> and \<open>Limit cannot exceed 500\<close> for every limit \<open>> 500\<close>, with the
  request log as it was: no fetch came before the throw. Whenever a request is made the
  limit is neither \<open><= 0\<close> nor \<open>> 500\<close>, so a limit other than \<open>NaN\<close> is then a finite
  number with \<open>0 < limit <= 500\<close>.
\<close>

theorem limit_checked_before_fetch:
  "(number_le limit 0 \<longrightarrow>
      getPosts net ft limit rlog = (Inl (Error ''Limit must be greater than 0''), rlog)
      \<and> getPostsByUser net username limit rlog
          = (Inl (Error ''Limit must be greater than 0''), rlog))
   \<and> (number_gt limit 500 \<longrightarrow>
      getPosts net ft limit rlog = (Inl (Error ''Limit cannot exceed 500''), rlog)
      \<and> getPostsByUser net username limit rlog
          = (Inl (Error ''Limit cannot exceed 500''), rlog))
   \<and> (snd (getPosts net ft limit rlog) \<noteq> rlog \<or> snd (getPostsByUser net username limit rlog) \<noteq> rlog
      \<longrightarrow> \<not> number_le limit 0 \<and> \<not> number_gt limit 500
          \<and> (limit \<noteq> NaN \<longrightarrow> (\<exists>r. limit = Finite r \<and> 0 < r \<and> r \<le> 500)))"
  by (cases limit) (auto simp: getPosts_def getPostsByUser_def)

theorem limit_checked_before_fetch_witness:
  "getPosts exampleNetwork TOP (Finite 0) [] = (Inl (Error ''Limit must be greater than 0''), [])
   \<and> getPostsByUser exampleNetwork ''pg'' (Finite 501) []
       = (Inl (Error ''Limit cannot exceed 500''), [])
   \<and> getPostsByUser exampleNetwork ''pg'' Infinity []
       = (Inl (Error ''Limit cannot exceed 500''), [])
   \<and> snd (getPosts exampleNetwork TOP (Finite 2) [])
       = [StoriesRequest TOP, ItemRequest 10, ItemRequest 11]"
  using limit_checked_before_fetch [of "Finite 0" exampleNetwork TOP "[]" "''pg''"]
    limit_checked_before_fetch [of "Finite 501" exampleNetwork TOP "[]" "''pg''"]
    limit_checked_before_fetch [of Infinity exampleNetwork TOP "[]" "''pg''"]
    limit_checked_before_fetch [of "Finite 2" exampleNetwork TOP "[]" "''pg''"]
  by (simp add: getPosts_def fetchStoryIds_def getPost_def exampleNetwork_def
      exampleItem_def newHackerNewsPost_def)

section \<open>Properties of the state machine\<close>

text \<open>
  C8, as the claim states it, fails: from the post view, opening the help overlay
  and closing it again ends in the feed view, not in the post view.
\<close>

theorem help_closes_to_feed_counterexample:
  "view examplePostState = PostView
   \<and> view (fst (handleInput (fst (handleInput examplePostState ''h'' noKey)) ''h'' noKey))
       = FeedView
   \<and> fst (handleInput (fst (handleInput examplePostState ''h'' noKey)) ''h'' noKey)
       \<noteq> examplePostState"
  by (simp add: handleInput_def examplePostState_def loadPostDetails_resolved_def
      loadPostDetails_begin_def initialState_def)

text \<open>
  C8, amended. From the feed view and from the post view the toggle key (\<open>h\<close> or
  \<open>?\<close>) opens the help overlay and changes nothing but the view; the toggle key or
  Escape closes it into the feed view, again changing nothing but the view. Opened from
  the feed, the state is the original one; opened from the post view, the state is the
  original one with the view set to the feed.
\<close>

theorem help_opens_and_closes_to_feed:
  "view s \<noteq> HelpView \<and> (input = ''h'' \<or> input = ''?'') \<longrightarrow>
     fst (handleInput s input key) = s\<lparr>view := HelpView\<rparr>
     \<and> (\<forall>input' key'. input' = ''h'' \<or> input' = ''?'' \<or> escape key' \<longrightarrow>
           fst (handleInput (s\<lparr>view := HelpView\<rparr>) input' key') = s\<lparr>view := FeedView\<rparr>)
     \<and> (view s = FeedView \<longrightarrow> s\<lparr>view := FeedView\<rparr> = s)
     \<and> (view s = PostView \<longrightarrow> s\<lparr>view := FeedView\<rparr> \<noteq> s)"
proof -
  have "s\<lparr>view := FeedView\<rparr> \<noteq> s" if "view s = PostView"
  proof
    assume "s\<lparr>view := FeedView\<rparr> = s"
    then have "view (s\<lparr>view := FeedView\<rparr>) = view s" by simp
    with that show False by simp
  qed
  then show ?thesis
    by (auto simp: handleInput_def handleHelpInput_def)
qed

theorem help_opens_and_closes_to_feed_witness:
  "view examplePostState \<noteq> HelpView
   \<and> fst (handleInput examplePostState ''?'' noKey) = examplePostState\<lparr>view := HelpView\<rparr>
   \<and> fst (handleInput (examplePostState\<lparr>view := HelpView\<rparr>) [] escapeKey)
       = examplePostState\<lparr>view := FeedView\<rparr>
   \<and> fst (handleInput (initialState\<lparr>view := HelpView\<rparr>) ''h'' noKey) = initialState"
  using help_opens_and_closes_to_feed [of examplePostState "''?''" noKey]
    help_opens_and_closes_to_feed [of initialState "''h''" noKey]
  by (simp add: examplePostState_def loadPostDetails_resolved_def
      loadPostDetails_begin_def initialState_def escapeKey_def noKey_def)

text \<open>
  C7, as the claim states it, fails: a post is opened from the feed, Escape returns
  to the feed while the comments are still loading, and the comments that arrive
  afterwards are written into the state of the feed view.
\<close>

theorem late_comments_applied_counterexample:
  "view abandonedLoad = FeedView \<and> comments abandonedLoad = [] \<and> loading abandonedLoad
   \<and> comments (fst (step abandonedLoad (CommentsResolved [exampleComment 10 []])))
       = [exampleComment 10 []]
   \<and> \<not> loading (fst (step abandonedLoad (CommentsResolved [exampleComment 10 []])))
   \<and> fst (step abandonedLoad (CommentsResolved [exampleComment 10 []])) \<noteq> abandonedLoad"
  by (simp add: abandonedLoad_def handleInput_def handleFeedInput_def handlePostInput_def
      enterKey_def escapeKey_def noKey_def initialState_def feedMap_def inFeedMap_def inheritedNames_def at_index_def
      loadPostDetails_begin_def loadPostDetails_resolved_def)

text \<open>
  C7, amended. After Escape or Backspace has left the post view, a result of the
  abandoned load that arrives is applied as any other: it replaces \<open>comments\<close> and
  \<open>flatComments\<close> and clears \<open>loading\<close>; the view stays the feed, and the feed type,
  the posts, both selection indices, the collapse set, the current post (\<open>null\<close>) and
  the error are as Escape left them.
\<close>

theorem late_comments_applied:
  "view s = PostView \<and> (escape key \<or> backspace key) \<and> \<not> downArrow key \<and> \<not> upArrow key \<longrightarrow>
     fst (step s (KeyPress [] key))
       = s\<lparr>view := FeedView, currentPost := None, comments := [], flatComments := []\<rparr>
     \<and> fst (step (fst (step s (KeyPress [] key))) (CommentsResolved cs))
       = s\<lparr>view := FeedView, currentPost := None, comments := cs,
            flatComments := flattenComments cs {} 0, loading := False\<rparr>"
  by (auto simp: handleInput_def handlePostInput_def loadPostDetails_resolved_def)

theorem late_comments_applied_witness:
  "view (loadPostDetails_begin examplePost initialState) = PostView \<and> escape escapeKey
   \<and> fst (step (fst (step (loadPostDetails_begin examplePost initialState) (KeyPress [] escapeKey)))
        (CommentsResolved [exampleComment 10 []]))
      = initialState\<lparr>comments := [exampleComment 10 []],
          flatComments := [flatEntry (exampleComment 10 []) 0 False]\<rparr>"
  using late_comments_applied [of "loadPostDetails_begin examplePost initialState" escapeKey
      "[exampleComment 10 []]"]
  by (simp add: loadPostDetails_begin_def initialState_def escapeKey_def noKey_def
      exampleComment_def handleInput_def handlePostInput_def loadPostDetails_resolved_def)

section \<open>Properties of the flattener\<close>

text \<open>
  The two recursive equations without the pattern on the constructor, and induction
  over a forest: a property holds for every forest when it holds for the empty one and
  passes from the replies of a comment and its later siblings to the whole.
\<close>

lemma flattenComments_Cons:
  "flattenComments (c # cs) C d =
     flatEntry c d (c_id c \<in> C)
     # (if c_id c \<in> C then [] else flattenComments (replies c) C (Suc d))
     @ flattenComments cs C d"
  by (cases c) (auto simp: Let_def)

lemma flattenAll_Cons:
  "flattenAll (c # cs) = c # flattenAll (replies c) @ flattenAll cs"
  by (cases c) auto

lemma withAncestors_Cons:
  "withAncestors anc (c # cs) =
     (anc, c) # withAncestors (anc @ [c_id c]) (replies c) @ withAncestors anc cs"
  by (cases c) auto

lemma forest_induct [case_names Nil Cons]:
  assumes "P []" and "\<And>c cs. P (replies c) \<Longrightarrow> P cs \<Longrightarrow> P (c # cs)"
  shows "P T"
proof (induction T rule: measure_induct_rule [of "size_list size"])
  case (less T)
  show ?case
  proof (cases T)
    case Nil
    with assms(1) show ?thesis by simp
  next
    case (Cons c cs)
    have "size_list size (replies c) < size_list size T"
      using Cons by (cases c) simp
    moreover have "size_list size cs < size_list size T"
      using Cons by simp
    ultimately show ?thesis
      using less assms(2) Cons by blast
  qed
qed

lemma hidden_under_collapsed:
  "set anc \<inter> C \<noteq> {} \<Longrightarrow> filter (\<lambda>(a, c). set a \<inter> C = {}) (withAncestors anc T) = []"
proof (induction T arbitrary: anc rule: forest_induct)
  case Nil
  show ?case by simp
next
  case (Cons c cs)
  from Cons.prems have "set (anc @ [c_id c]) \<inter> C \<noteq> {}" by auto
  with Cons.IH(1) Cons.IH(2) Cons.prems show ?case
    by (simp add: withAncestors_Cons del: withAncestors.simps(2))
qed

lemma flattenComments_visible:
  "set anc \<inter> C = {} \<Longrightarrow>
   flattenComments T C (d + length anc) =
     map (\<lambda>(a, c). flatEntry c (d + length a) (c_id c \<in> C))
       (filter (\<lambda>(a, c). set a \<inter> C = {}) (withAncestors anc T))"
proof (induction T arbitrary: anc rule: forest_induct)
  case Nil
  show ?case by simp
next
  case (Cons c cs)
  show ?case
  proof (cases "c_id c \<in> C")
    case True
    then have "set (anc @ [c_id c]) \<inter> C \<noteq> {}" by auto
    then have "filter (\<lambda>(a, c). set a \<inter> C = {}) (withAncestors (anc @ [c_id c]) (replies c)) = []"
      by (rule hidden_under_collapsed)
    with True Cons.IH(2) [OF Cons.prems] Cons.prems show ?thesis
      by (simp add: withAncestors_Cons flattenComments_Cons
          del: withAncestors.simps(2) flattenComments.simps(2))
  next
    case False
    with Cons.prems have "set (anc @ [c_id c]) \<inter> C = {}" by auto
    from Cons.IH(1) [OF this] False Cons.IH(2) [OF Cons.prems] Cons.prems show ?thesis
      by (simp add: withAncestors_Cons flattenComments_Cons
          del: withAncestors.simps(2) flattenComments.simps(2))
  qed
qed

lemma withAncestors_ids:
  "map (\<lambda>(a, c). c_id c) (withAncestors anc T) = map c_id (flattenAll T)"
proof (induction T arbitrary: anc rule: forest_induct)
  case Nil
  show ?case by simp
next
  case (Cons c cs)
  then show ?case
    by (simp add: withAncestors_Cons flattenAll_Cons
        del: withAncestors.simps(2) flattenAll.simps(2))
qed

lemma count_in_distinct:
  assumes "distinct (map f W)" and "w \<in> set W"
  shows "length (filter (\<lambda>v. f v = f w \<and> P v) W) = (if P w then 1 else 0)"
  using assms
proof (induction W)
  case Nil
  then show ?case by simp
next
  case (Cons v W)
  show ?case
  proof (cases "v = w")
    case True
    from Cons.prems(1) have "\<forall>u \<in> set W. f u \<noteq> f v" by (auto simp: image_iff)
    then have "filter (\<lambda>u. f u = f w \<and> P u) W = []"
      using True by (auto simp: filter_empty_conv)
    with True show ?thesis by simp
  next
    case False
    with Cons.prems have "w \<in> set W" "f v \<noteq> f w" "distinct (map f W)" by auto
    with Cons.IH show ?thesis by simp
  qed
qed


text \<open>
  C1, as the claim states it, fails: comment 2 is a reply of comment 1 and both
  identifiers are in the collapse set. Comment 2 occurs in the tree and its identifier
  is in the set, yet the flat sequence holds comment 1 only.
\<close>

theorem nested_collapsed_node_hidden_counterexample:
  "c_id (exampleComment 2 []) \<in> {1, 2}
   \<and> exampleComment 2 [] \<in> set (flattenAll [exampleComment 1 [exampleComment 2 []]])
   \<and> flattenComments [exampleComment 1 [exampleComment 2 []]] {1, 2} 0
       = [flatEntry (exampleComment 1 [exampleComment 2 []]) 0 True]
   \<and> length (filter (\<lambda>f. fc_id f = 2)
         (flattenComments [exampleComment 1 [exampleComment 2 []]] {1, 2} 0)) = 0"
  by (simp add: exampleComment_def flatEntry_def)

text \<open>
  C1, amended. For every forest \<open>T\<close>, collapse set \<open>C\<close> and starting depth, the flat
  sequence is the pre-order list of exactly the nodes none of whose proper ancestors has
  its identifier in \<open>C\<close>, each at its depth; every entry is marked \<open>isCollapsed\<close>
  exactly when its identifier is in \<open>C\<close>. So no descendant of a node whose identifier
  is in \<open>C\<close> is included, and when the identifiers of \<open>T\<close> are pairwise distinct a
  node occurs once if it has no ancestor in \<open>C\<close> and not at all otherwise: a node
  whose identifier is in \<open>C\<close> is included exactly once, marked collapsed, unless it lies
  below another node of \<open>C\<close>.
\<close>

theorem flattenComments_projection:
  "flattenComments T C d =
     map (\<lambda>(a, c). flatEntry c (d + length a) (c_id c \<in> C))
       (filter (\<lambda>(a, c). set a \<inter> C = {}) (withAncestors [] T))
   \<and> (\<forall>f \<in> set (flattenComments T C d). isCollapsed f = (fc_id f \<in> C))
   \<and> (distinct (map c_id (flattenAll T)) \<longrightarrow>
        (\<forall>(a, c) \<in> set (withAncestors [] T).
           length (filter (\<lambda>f. fc_id f = c_id c) (flattenComments T C d))
             = (if set a \<inter> C = {} then 1 else 0)))"
proof -
  let ?vis = "\<lambda>(a, c). set a \<inter> C = {}"
  let ?entry = "\<lambda>(a, c). flatEntry c (d + length a) (c_id c \<in> C)"
  have eq: "flattenComments T C d = map ?entry (filter ?vis (withAncestors [] T))"
    using flattenComments_visible [of "[]" C T d] by simp
  have flag: "\<forall>f \<in> set (flattenComments T C d). isCollapsed f = (fc_id f \<in> C)"
    unfolding eq by (auto simp: flatEntry_def)
  have cnt: "length (filter (\<lambda>f. fc_id f = c_id c) (flattenComments T C d))
               = (if set a \<inter> C = {} then 1 else 0)"
    if dist: "distinct (map c_id (flattenAll T))" and mem: "(a, c) \<in> set (withAncestors [] T)"
    for a c
  proof -
    have d': "distinct (map (\<lambda>(a, c). c_id c) (withAncestors [] T))"
      using dist by (simp add: withAncestors_ids)
    have "length (filter (\<lambda>f. fc_id f = c_id c) (flattenComments T C d))
            = length (filter (\<lambda>v. (\<lambda>(a, c). c_id c) v = (\<lambda>(a, c). c_id c) (a, c) \<and> ?vis v)
                (withAncestors [] T))"
      unfolding eq
      by (simp add: filter_map o_def case_prod_unfold flatEntry_def conj_commute)
    also have "\<dots> = (if ?vis (a, c) then 1 else 0)"
      by (rule count_in_distinct [OF d' mem])
    finally show ?thesis by simp
  qed
  from eq flag cnt show ?thesis by blast
qed

theorem flattenComments_projection_witness:
  "distinct (map c_id (flattenAll exampleForest))
   \<and> flattenComments exampleForest {2} 0
       = [flatEntry (exampleComment 1 [exampleComment 2 [exampleComment 3 []]]) 0 False,
          flatEntry (exampleComment 2 [exampleComment 3 []]) 1 True,
          flatEntry (exampleComment 4 []) 0 False]
   \<and> length (filter (\<lambda>f. fc_id f = 2) (flattenComments exampleForest {2} 0)) = 1
   \<and> length (filter (\<lambda>f. fc_id f = 3) (flattenComments exampleForest {2} 0)) = 0"
  using flattenComments_projection [of exampleForest "{2}" 0]
  by (simp add: exampleForest_def exampleComment_def flatEntry_def)

section \<open>The selection of the post view\<close>







section \<open>Properties of the comment tree builder\<close>

text \<open>
  One step of \<open>fetchCommentTree\<close> in the vocabulary above. The equation of the
  definition is taken out of the simplifier's rules, which would unfold it at every
  successor.
\<close>

lemma fetchCommentTree_Suc:
  "fetchCommentTree (Suc fuel) net i rlog =
     (case liveItem net i of
        None \<Rightarrow> Some (None, rlog @ [ItemRequest i])
      | Some item \<Rightarrow>
          (case fetchCommentTrees fuel net (kidsOf item) (rlog @ [ItemRequest i]) of
             None \<Rightarrow> None
           | Some (rs, rlog') \<Rightarrow> Some (Some (commentOf item rs), rlog')))"
  by (auto simp: liveItem_def kidsOf_def split: response.splits option.splits optional.splits)

declare fetchCommentTree.simps(2) [simp del]

lemma fetchCommentTrees_Cons:
  "fetchCommentTrees fuel net (i # ids) rlog =
     (case fetchCommentTree fuel net i rlog of
        None \<Rightarrow> None
      | Some (reply, rlog') \<Rightarrow>
          (case fetchCommentTrees fuel net ids rlog' of
             None \<Rightarrow> None
           | Some (rs, rlog'') \<Rightarrow>
               Some ((case reply of None \<Rightarrow> rs | Some c \<Rightarrow> c # rs), rlog'')))"
  by simp





lemma trees_fuel_mono:
  assumes "\<And>i rlog r. fetchCommentTree fuel net i rlog = Some r
             \<Longrightarrow> fetchCommentTree fuel' net i rlog = Some r"
  shows "fetchCommentTrees fuel net ids rlog = Some r
           \<Longrightarrow> fetchCommentTrees fuel' net ids rlog = Some r"
proof (induction ids arbitrary: rlog r)
  case Nil
  then show ?case by simp
next
  case (Cons i ids)
  from Cons.prems obtain reply l rs l'
    where t: "fetchCommentTree fuel net i rlog = Some (reply, l)"
      and u: "fetchCommentTrees fuel net ids l = Some (rs, l')"
      and r: "r = ((case reply of None \<Rightarrow> rs | Some c \<Rightarrow> c # rs), l')"
    by (auto split: option.splits)
  from assms [OF t] Cons.IH [OF u] r show ?case by simp
qed

lemma tree_fuel_Suc:
  "fetchCommentTree fuel net i rlog = Some r \<Longrightarrow> fetchCommentTree (Suc fuel) net i rlog = Some r"
proof (induction fuel arbitrary: i rlog r)
  case 0
  then show ?case by simp
next
  case (Suc fuel)
  have trees: "fetchCommentTrees fuel net ids l = Some q
      \<Longrightarrow> fetchCommentTrees (Suc fuel) net ids l = Some q" for ids l q
    using trees_fuel_mono [where fuel = fuel and fuel' = "Suc fuel" and net = net] Suc.IH
    by blast
  show ?case
  proof (cases "liveItem net i")
    case None
    with Suc.prems show ?thesis
      by (simp add: fetchCommentTree_Suc del: fetchCommentTree.simps)
  next
    case (Some item)
    with Suc.prems obtain rs l
      where k: "fetchCommentTrees fuel net (kidsOf item) (rlog @ [ItemRequest i]) = Some (rs, l)"
        and r: "r = (Some (commentOf item rs), l)"
      by (auto simp: fetchCommentTree_Suc simp del: fetchCommentTree.simps
          split: option.splits)
    from trees [OF k] Some r show ?thesis
      by (simp add: fetchCommentTree_Suc [of "Suc fuel"] del: fetchCommentTree.simps)
  qed
qed

lemma tree_fuel_mono:
  assumes "fuel \<le> fuel'" and "fetchCommentTree fuel net i rlog = Some r"
  shows "fetchCommentTree fuel' net i rlog = Some r"
  using assms by (induction fuel' rule: dec_induct) (simp_all add: tree_fuel_Suc)

lemma forest_fuel_mono:
  assumes "fuel \<le> fuel'" and "fetchCommentTrees fuel net ids rlog = Some r"
  shows "fetchCommentTrees fuel' net ids rlog = Some r"
  using trees_fuel_mono [where fuel = fuel and fuel' = fuel' and net = net, OF _ assms(2)]
    tree_fuel_mono [OF assms(1)]
  by blast

text \<open>
  Returning and not returning.
\<close>

lemma trees_return:
  assumes "\<And>i rlog. i \<in> set ids \<Longrightarrow> \<exists>r. fetchCommentTree fuel net i rlog = Some r"
  shows "\<exists>r. fetchCommentTrees fuel net ids rlog = Some r"
  using assms
proof (induction ids arbitrary: rlog)
  case Nil
  show ?case by simp
next
  case (Cons i ids)
  from Cons.prems [of i rlog] obtain reply l
    where t: "fetchCommentTree fuel net i rlog = Some (reply, l)" by auto
  from Cons.IH [of l] Cons.prems obtain q
    where u: "fetchCommentTrees fuel net ids l = Some q" by auto
  from t u show ?case by (cases q) simp
qed

lemma tree_returns:
  assumes rk: "\<And>i item k. liveItem net i = Some item \<Longrightarrow> k \<in> set (kidsOf item)
                 \<Longrightarrow> rank k < (rank i :: nat)"
  shows "rank i < fuel \<Longrightarrow> \<exists>r. fetchCommentTree fuel net i rlog = Some r"
proof (induction fuel arbitrary: i rlog)
  case 0
  then show ?case by simp
next
  case (Suc fuel)
  show ?case
  proof (cases "liveItem net i")
    case None
    then show ?thesis by (simp add: fetchCommentTree_Suc)
  next
    case (Some item)
    have "\<exists>r. fetchCommentTree fuel net k l = Some r" if "k \<in> set (kidsOf item)" for k l
      using rk [OF Some that] Suc.prems Suc.IH [of k l] by simp
    then obtain q
      where "fetchCommentTrees fuel net (kidsOf item) (rlog @ [ItemRequest i]) = Some q"
      using trees_return [of "kidsOf item" fuel net "rlog @ [ItemRequest i]"] by blast
    with Some show ?thesis by (cases q) (simp add: fetchCommentTree_Suc)
  qed
qed

lemma rank_bound: "i \<in> set ids \<Longrightarrow> rank i < Suc (sum_list (map rank ids))" for rank :: "int \<Rightarrow> nat"
  by (induction ids) auto

lemma trees_diverge:
  assumes "i \<in> set ids" and "\<And>rlog. fetchCommentTree fuel net i rlog = None"
  shows "fetchCommentTrees fuel net ids rlog = None"
  using assms(1)
proof (induction ids arbitrary: rlog)
  case Nil
  then show ?case by simp
next
  case (Cons j ids)
  show ?case
  proof (cases "j = i")
    case True
    with assms(2) [of rlog] show ?thesis by simp
  next
    case False
    with Cons.prems have "i \<in> set ids" by simp
    from Cons.IH [OF this] show ?thesis by (simp split: option.splits)
  qed
qed

lemma self_reference_diverges:
  assumes "liveItem net i = Some item" and "i \<in> set (kidsOf item)"
  shows "fetchCommentTree fuel net i rlog = None"
proof (induction fuel arbitrary: rlog)
  case 0
  show ?case by simp
next
  case (Suc fuel)
  from trees_diverge [OF assms(2), of fuel net] Suc.IH
  have "fetchCommentTrees fuel net (kidsOf item) (rlog @ [ItemRequest i]) = None" by blast
  with assms(1) show ?case by (simp add: fetchCommentTree_Suc)
qed

lemma mutual_reference_diverges:
  assumes "liveItem net i = Some item" and "j \<in> set (kidsOf item)"
    and "liveItem net j = Some item'" and "i \<in> set (kidsOf item')"
  shows "fetchCommentTree fuel net i rlog = None \<and> fetchCommentTree fuel net j rlog = None"
proof (induction fuel arbitrary: rlog)
  case 0
  show ?case by simp
next
  case (Suc fuel)
  from trees_diverge [OF assms(2), of fuel net] Suc.IH
  have "fetchCommentTrees fuel net (kidsOf item) (rlog @ [ItemRequest i]) = None" by blast
  moreover from trees_diverge [OF assms(4), of fuel net] Suc.IH
  have "fetchCommentTrees fuel net (kidsOf item') (rlog @ [ItemRequest j]) = None" by blast
  ultimately show ?case using assms(1,3) by (simp add: fetchCommentTree_Suc)
qed










text \<open>
  The example networks.
\<close>

lemma exampleNetwork_live:
  "liveItem exampleNetwork i =
     (if i = 10 then Some (exampleItem 10 [20])
      else if i = 20 then Some (exampleItem 20 []) else None)"
  by (simp add: liveItem_def exampleNetwork_def deadNetwork_def exampleItem_def)


lemma exampleItem_kids: "kidsOf (exampleItem n kids) = kids"
  by (simp add: kidsOf_def exampleItem_def)

lemma exampleItem_comment: "commentOf (exampleItem n kids) rs = exampleComment n rs"
  by (simp add: commentOf_def exampleItem_def exampleComment_def)

lemma example_build:
  "getComments (Suc (Suc 0)) exampleNetwork examplePost emptyWorld =
     Some (0, examplePost\<lparr>commentsCache := Some 0\<rparr>,
           \<lparr>heap = [[exampleComment 10 [exampleComment 20 []]]],
            requests = [ItemRequest 10, ItemRequest 20, ItemRequest 11]\<rparr>)"
  by (simp add: getComments_def examplePost_def emptyWorld_def fetchCommentTree_Suc
      exampleNetwork_live exampleItem_kids exampleItem_comment)

text \<open>
  C4, as the claim states it, fails: for an item that lists itself among its kids,
  and for two items that list each other, the build returns for no amount of fuel.
\<close>

theorem cyclic_build_never_returns_counterexample:
  "\<forall>fuel.
     getComments fuel cyclicNetwork (examplePost\<lparr>commentIds := [1]\<rparr>) emptyWorld = None
     \<and> getComments fuel cyclicNetwork (examplePost\<lparr>commentIds := [2]\<rparr>) emptyWorld = None"
proof
  fix fuel
  have l1: "liveItem cyclicNetwork 1 = Some (exampleItem 1 [1])"
    and l2: "liveItem cyclicNetwork 2 = Some (exampleItem 2 [3])"
    and l3: "liveItem cyclicNetwork 3 = Some (exampleItem 3 [2])"
    by (simp_all add: liveItem_def cyclicNetwork_def deadNetwork_def exampleItem_def)
  have k: "1 \<in> set (kidsOf (exampleItem 1 [1]))" "3 \<in> set (kidsOf (exampleItem 2 [3]))"
    "2 \<in> set (kidsOf (exampleItem 3 [2]))"
    by (simp_all add: kidsOf_def exampleItem_def)
  have "fetchCommentTree fuel cyclicNetwork 1 [] = None"
    by (rule self_reference_diverges [OF l1 k(1)])
  moreover have "fetchCommentTree fuel cyclicNetwork 2 [] = None"
    using mutual_reference_diverges [OF l2 k(2) l3 k(3)] by blast
  ultimately show "getComments fuel cyclicNetwork (examplePost\<lparr>commentIds := [1]\<rparr>) emptyWorld = None
     \<and> getComments fuel cyclicNetwork (examplePost\<lparr>commentIds := [2]\<rparr>) emptyWorld = None"
    by (simp add: getComments_def examplePost_def emptyWorld_def)
qed

text \<open>
  C4, amended. When the kids references of the live items strictly decrease some
  rank (the graph has no cycle and no unbounded chain), the build returns, and what it
  returns does not depend on the fuel. The code has no check for an identifier already
  seen on the current path: when a live top-level item lists itself among its kids,
  the build never returns.
\<close>

theorem build_returns_without_cycles:
  "((\<forall>i item k. liveItem net i = Some item \<and> k \<in> set (kidsOf item) \<longrightarrow> rank k < (rank i :: nat))
      \<longrightarrow> (\<exists>fuel r. getComments fuel net post w = Some r))
   \<and> (getComments fuel net post w = Some r \<and> fuel \<le> fuel'
      \<longrightarrow> getComments fuel' net post w = Some r)
   \<and> (commentsCache post = None \<and> i \<in> set (commentIds post)
        \<and> liveItem net i = Some item \<and> i \<in> set (kidsOf item)
      \<longrightarrow> getComments fuel net post w = None)"
proof (intro conjI impI)
  assume rk: "\<forall>i item k. liveItem net i = Some item \<and> k \<in> set (kidsOf item) \<longrightarrow> rank k < rank i"
  let ?fuel = "Suc (sum_list (map rank (commentIds post)))"
  have "\<exists>r. fetchCommentTree ?fuel net j l = Some r" if "j \<in> set (commentIds post)" for j l
    using tree_returns [of net rank j ?fuel l] rk rank_bound [OF that, of rank] by blast
  then obtain q
    where "fetchCommentTrees ?fuel net (commentIds post) (requests w) = Some q"
    using trees_return [of "commentIds post" ?fuel net "requests w"] by blast
  then have "\<exists>r. getComments ?fuel net post w = Some r"
    by (cases q) (simp add: getComments_def Let_def split: option.splits)
  then show "\<exists>fuel r. getComments fuel net post w = Some r" by blast
next
  assume a: "getComments fuel net post w = Some r \<and> fuel \<le> fuel'"
  show "getComments fuel' net post w = Some r"
  proof (cases "commentsCache post")
    case (Some addr)
    with a show ?thesis by (simp add: getComments_def)
  next
    case None
    with a obtain cs l
      where b: "fetchCommentTrees fuel net (commentIds post) (requests w) = Some (cs, l)"
      by (auto simp: getComments_def split: option.splits)
    from forest_fuel_mono [OF _ b, of fuel'] a
    have "fetchCommentTrees fuel' net (commentIds post) (requests w) = Some (cs, l)" by simp
    with a b None show ?thesis by (simp add: getComments_def)
  qed
next
  assume a: "commentsCache post = None \<and> i \<in> set (commentIds post)
        \<and> liveItem net i = Some item \<and> i \<in> set (kidsOf item)"
  then have "fetchCommentTree fuel net i l = None" for l
    using self_reference_diverges by blast
  with a have "fetchCommentTrees fuel net (commentIds post) (requests w) = None"
    using trees_diverge by blast
  with a show "getComments fuel net post w = None" by (simp add: getComments_def)
qed

theorem build_returns_without_cycles_witness:
  "(\<exists>fuel r. getComments fuel exampleNetwork examplePost emptyWorld = Some r)
   \<and> getComments (Suc (Suc (Suc 0))) exampleNetwork examplePost emptyWorld =
       Some (0, examplePost\<lparr>commentsCache := Some 0\<rparr>,
             \<lparr>heap = [[exampleComment 10 [exampleComment 20 []]]],
              requests = [ItemRequest 10, ItemRequest 20, ItemRequest 11]\<rparr>)
   \<and> getComments (Suc (Suc 0)) cyclicNetwork (examplePost\<lparr>commentIds := [1]\<rparr>) emptyWorld
       = None"
proof -
  have rk: "\<forall>i item k. liveItem exampleNetwork i = Some item \<and> k \<in> set (kidsOf item)
              \<longrightarrow> exampleRank k < exampleRank i"
    by (auto simp: exampleNetwork_live exampleItem_kids exampleRank_def split: if_splits)
  have c: "commentsCache (examplePost\<lparr>commentIds := [1]\<rparr>) = None
      \<and> 1 \<in> set (commentIds (examplePost\<lparr>commentIds := [1]\<rparr>))
      \<and> liveItem cyclicNetwork 1 = Some (exampleItem 1 [1])
      \<and> 1 \<in> set (kidsOf (exampleItem 1 [1]))"
    by (simp add: examplePost_def liveItem_def cyclicNetwork_def deadNetwork_def
        exampleItem_kids) (simp add: exampleItem_def)
  from build_returns_without_cycles
    [of exampleNetwork exampleRank examplePost emptyWorld "Suc (Suc 0)" _ "Suc (Suc (Suc 0))"]
    build_returns_without_cycles
    [of cyclicNetwork exampleRank "examplePost\<lparr>commentIds := [1]\<rparr>" emptyWorld "Suc (Suc 0)"
      _ _ 1 "exampleItem 1 [1]"]
    rk c example_build
  show ?thesis by simp
qed



section \<open>Properties of the comment cache\<close>

text \<open>
  C6. After a call of \<open>getComments\<close> has returned, every further call returns the
  same reference and leaves the post, the store and the request log as they are,
  whatever the network now holds; \<open>getAllCommentsFlat\<close> and \<open>findComment\<close> leave the post
  as it is, so only \<open>clearCommentsCache\<close> empties the cache. When the first call found
  the cache empty, its reference is a new address, the only array added to the
  store, which holds what was built, and after
  \<open>clearCommentsCache\<close> the next call fetches the identifier list again from the network
  of that moment and returns another new address.
\<close>

theorem getComments_cache_stable:
  "(getComments fuel net post w = Some (a, post1, w1) \<longrightarrow>
      commentsCache post1 = Some a
      \<and> getComments fuel' net' post1 w' = Some (a, post1, w')
      \<and> (\<forall>r. getAllCommentsFlat fuel' net' post1 w' = Some r \<longrightarrow> fst (snd r) = post1)
      \<and> (\<forall>r. findComment fuel' net' post1 w' cid = Some r \<longrightarrow> fst (snd r) = post1)
      \<and> commentsCache (clearCommentsCache post1) = None
      \<and> (commentsCache post = None \<longrightarrow>
            a = length (heap w)
            \<and> heap w1 = heap w @ [deref w1 a]
            \<and> fetchCommentTrees fuel net (commentIds post) (requests w)
                = Some (deref w1 a, requests w1)
            \<and> getComments fuel' net' (clearCommentsCache post1) w1 =
                (case fetchCommentTrees fuel' net' (commentIds post) (requests w1) of
                   None \<Rightarrow> None
                 | Some (cs, rlog) \<Rightarrow>
                     Some (Suc a, post1\<lparr>commentsCache := Some (Suc a)\<rparr>,
                           \<lparr>heap = heap w1 @ [cs], requests = rlog\<rparr>))))"
proof (intro impI)
  assume g: "getComments fuel net post w = Some (a, post1, w1)"
  have c1: "commentsCache post1 = Some a"
    using g by (auto simp: getComments_def Let_def split: option.splits)
  have again: "getComments fuel' net' post1 w' = Some (a, post1, w')"
    using c1 by (simp add: getComments_def)
  have flat: "\<forall>r. getAllCommentsFlat fuel' net' post1 w' = Some r \<longrightarrow> fst (snd r) = post1"
    using again by (auto simp: getAllCommentsFlat_def)
  have find: "\<forall>r. findComment fuel' net' post1 w' cid = Some r \<longrightarrow> fst (snd r) = post1"
    using again by (auto simp: findComment_def getAllCommentsFlat_def)
  have clr: "commentsCache (clearCommentsCache post1) = None"
    by (simp add: clearCommentsCache_def)
  have first: "a = length (heap w)
            \<and> heap w1 = heap w @ [deref w1 a]
            \<and> fetchCommentTrees fuel net (commentIds post) (requests w)
                = Some (deref w1 a, requests w1)
            \<and> getComments fuel' net' (clearCommentsCache post1) w1 =
                (case fetchCommentTrees fuel' net' (commentIds post) (requests w1) of
                   None \<Rightarrow> None
                 | Some (cs, rlog) \<Rightarrow>
                     Some (Suc a, post1\<lparr>commentsCache := Some (Suc a)\<rparr>,
                           \<lparr>heap = heap w1 @ [cs], requests = rlog\<rparr>))"
    if n: "commentsCache post = None"
  proof -
    from g n obtain cs l
      where b: "fetchCommentTrees fuel net (commentIds post) (requests w) = Some (cs, l)"
        and a: "a = length (heap w)"
        and p: "post1 = post\<lparr>commentsCache := Some a\<rparr>"
        and w1: "w1 = \<lparr>heap = heap w @ [cs], requests = l\<rparr>"
      by (auto simp: getComments_def Let_def split: option.splits)
    have d: "deref w1 a = cs" using a w1 by (simp add: deref_def)
    have "getComments fuel' net' (clearCommentsCache post1) w1 =
                (case fetchCommentTrees fuel' net' (commentIds post) (requests w1) of
                   None \<Rightarrow> None
                 | Some (cs, rlog) \<Rightarrow>
                     Some (Suc a, post1\<lparr>commentsCache := Some (Suc a)\<rparr>,
                           \<lparr>heap = heap w1 @ [cs], requests = rlog\<rparr>))"
      using a p w1
      by (simp add: getComments_def clearCommentsCache_def Let_def split: option.splits)
    with a b d w1 show ?thesis by simp
  qed
  from c1 again flat find clr first
  show "commentsCache post1 = Some a
      \<and> getComments fuel' net' post1 w' = Some (a, post1, w')
      \<and> (\<forall>r. getAllCommentsFlat fuel' net' post1 w' = Some r \<longrightarrow> fst (snd r) = post1)
      \<and> (\<forall>r. findComment fuel' net' post1 w' cid = Some r \<longrightarrow> fst (snd r) = post1)
      \<and> commentsCache (clearCommentsCache post1) = None
      \<and> (commentsCache post = None \<longrightarrow>
            a = length (heap w)
            \<and> heap w1 = heap w @ [deref w1 a]
            \<and> fetchCommentTrees fuel net (commentIds post) (requests w)
                = Some (deref w1 a, requests w1)
            \<and> getComments fuel' net' (clearCommentsCache post1) w1 =
                (case fetchCommentTrees fuel' net' (commentIds post) (requests w1) of
                   None \<Rightarrow> None
                 | Some (cs, rlog) \<Rightarrow>
                     Some (Suc a, post1\<lparr>commentsCache := Some (Suc a)\<rparr>,
                           \<lparr>heap = heap w1 @ [cs], requests = rlog\<rparr>)))"
    by blast
qed

theorem getComments_cache_stable_witness:
  "getComments (Suc (Suc 0)) exampleNetwork examplePost emptyWorld
     = Some (0, examplePost\<lparr>commentsCache := Some 0\<rparr>, builtWorld)
   \<and> getComments 0 deadNetwork (examplePost\<lparr>commentsCache := Some 0\<rparr>) builtWorld
     = Some (0, examplePost\<lparr>commentsCache := Some 0\<rparr>, builtWorld)
   \<and> getComments (Suc 0) deadNetwork
        (clearCommentsCache (examplePost\<lparr>commentsCache := Some 0\<rparr>)) builtWorld
     = Some (1, examplePost\<lparr>commentsCache := Some 1\<rparr>,
             \<lparr>heap = [[exampleComment 10 [exampleComment 20 []]], []],
              requests = [ItemRequest 10, ItemRequest 20, ItemRequest 11,
                          ItemRequest 10, ItemRequest 11]\<rparr>)"
proof -
  have b: "getComments (Suc (Suc 0)) exampleNetwork examplePost emptyWorld
     = Some (0, examplePost\<lparr>commentsCache := Some 0\<rparr>, builtWorld)"
    by (simp add: example_build builtWorld_def)
  have n: "commentsCache examplePost = None" by (simp add: examplePost_def)
  have d: "fetchCommentTrees (Suc 0) deadNetwork (commentIds examplePost) (requests builtWorld)
     = Some ([], [ItemRequest 10, ItemRequest 20, ItemRequest 11,
                  ItemRequest 10, ItemRequest 11])"
    by (simp add: fetchCommentTree_Suc liveItem_def deadNetwork_def examplePost_def
        builtWorld_def)
  from getComments_cache_stable
    [where fuel = "Suc (Suc 0)" and net = exampleNetwork and post = examplePost
      and w = emptyWorld and a = 0 and ?post1.0 = "examplePost\<lparr>commentsCache := Some 0\<rparr>"
      and ?w1.0 = builtWorld and fuel' = 0 and net' = deadNetwork and w' = builtWorld]
    getComments_cache_stable
    [where fuel = "Suc (Suc 0)" and net = exampleNetwork and post = examplePost
      and w = emptyWorld and a = 0 and ?post1.0 = "examplePost\<lparr>commentsCache := Some 0\<rparr>"
      and ?w1.0 = builtWorld and fuel' = "Suc 0" and net' = deadNetwork and w' = builtWorld]
    b n d
  show ?thesis by (simp add: builtWorld_def)
qed

end
